theory Spec2Isabelle
  imports Complex_Main
begin

section \<open>Python values and errors\<close>

text \<open>
  The exceptions the modelled code can raise. \<open>RuntimeError\<close> and \<open>Exception\<close> carry the
  message the source gives them; the other two are raised by Python itself
  (division by zero, list index out of range).
\<close>

datatype py_error =
    ZeroDivisionError
  | IndexError
  | RuntimeError string
  | Exception string

text \<open>Python's \<open>int(x)\<close> on a number: truncation towards zero.\<close>

definition py_int :: "rat \<Rightarrow> int" where
  "py_int x = (if 0 \<le> x then \<lfloor>x\<rfloor> else \<lceil>x\<rceil>)"

section \<open>capture/scopes/chipwhisperer/husky.py: timing constants\<close>

text \<open>
  Frequencies and the clock multiplier are Python numbers (\<open>200e6\<close> is a float, the
  configured values are integers or decimal fractions); they are modelled as exact
  rationals, cycle and sample counts as unbounded integers.
\<close>

definition SAMPLING_RATE_MAX :: rat where
  "SAMPLING_RATE_MAX = 200000000"

record scope =
  is_husky :: bool
  gain_db :: rat
  adc_basic_mode :: string
  clock_clkgen_src :: string
  clock_clkgen_freq :: rat
  clock_adc_mul :: int
  clock_extclk_monitor_enabled :: bool
  adc_samples :: int
  adc_offset :: int
  adc_presamples :: int
  trigger_triggers :: string
  io_tio1 :: string
  io_tio2 :: string
  io_hs2 :: string

record husky =
  scope :: "scope option"
  scope_gain :: rat
  clkgen_freq :: rat
  adc_mul :: int
  sampling_rate :: rat
  target_freq :: rat
  offset_samples :: int
  num_samples :: int
  num_segments :: int

text \<open>Line 23: \<open>int(SAMPLING_RATE_MAX // pll_frequency)\<close>, for a non-zero divisor.\<close>

definition adc_mul_of :: "rat \<Rightarrow> int" where
  "adc_mul_of pll_frequency = py_int (of_int \<lfloor>SAMPLING_RATE_MAX / pll_frequency\<rfloor>)"

text \<open>Line 32: \<open>sampling_rate / target_freq\<close>, for a non-zero divisor.\<close>

definition sampling_target_ratio :: "rat \<Rightarrow> rat \<Rightarrow> rat" where
  "sampling_target_ratio pll_frequency target_clk_mult =
     (pll_frequency * of_int (adc_mul_of pll_frequency)) / (pll_frequency * target_clk_mult)"

text \<open>Line 34: the sample count before it is made divisible by 3.\<close>

definition raw_num_samples :: "int \<Rightarrow> rat \<Rightarrow> rat \<Rightarrow> int" where
  "raw_num_samples num_cycles pll_frequency target_clk_mult =
     py_int (of_int num_cycles * sampling_target_ratio pll_frequency target_clk_mult)"

text \<open>Lines 35-36: \<open>if n % 3: n = n + 3 - (n % 3)\<close>.\<close>

definition divisible_by_3 :: "int \<Rightarrow> int" where
  "divisible_by_3 n = (if n mod 3 \<noteq> 0 then n + 3 - (n mod 3) else n)"

text \<open>
  \<open>Husky.__init__\<close>. The two divisions raise \<open>ZeroDivisionError\<close> on a zero divisor;
  nothing else is checked.
\<close>

definition Husky_init :: "rat \<Rightarrow> int \<Rightarrow> int \<Rightarrow> int \<Rightarrow> rat \<Rightarrow> rat \<Rightarrow> py_error + husky" where
  "Husky_init scope_gain' num_cycles num_segments' offset_cycles pll_frequency target_clk_mult =
     (if pll_frequency = 0 then Inl ZeroDivisionError
      else
        let adc_mul' = adc_mul_of pll_frequency;
            sampling_rate' = pll_frequency * of_int adc_mul';
            target_freq' = pll_frequency * target_clk_mult
        in if target_freq' = 0 then Inl ZeroDivisionError
           else
             let ratio = sampling_target_ratio pll_frequency target_clk_mult;
                 offset_samples' = py_int (of_int offset_cycles * ratio);
                 num_samples' = raw_num_samples num_cycles pll_frequency target_clk_mult
             in Inr \<lparr> scope = None,
                      scope_gain = scope_gain',
                      clkgen_freq = pll_frequency,
                      adc_mul = adc_mul',
                      sampling_rate = sampling_rate',
                      target_freq = target_freq',
                      offset_samples = offset_samples',
                      num_samples = divisible_by_3 num_samples',
                      num_segments = num_segments' \<rparr>)"

section \<open>Python strings\<close>

text \<open>\<open>sub in s\<close>: \<open>sub\<close> occurs in \<open>s\<close> as a contiguous substring.\<close>

fun contains :: "string \<Rightarrow> string \<Rightarrow> bool" where
  "contains sub [] = (sub = [])"
| "contains sub (c # cs) = (take (length sub) (c # cs) = sub \<or> contains sub cs)"

text \<open>
  \<open>s.split(sep)\<close> for a non-empty separator: the pieces between the non-overlapping
  occurrences of \<open>sep\<close>, found from left to right. \<open>k\<close> counts the characters of a matched
  separator that are still to be skipped, \<open>cur\<close> is the current piece, reversed.
\<close>

fun split_go :: "string \<Rightarrow> nat \<Rightarrow> string \<Rightarrow> string \<Rightarrow> string list" where
  "split_go sep k cur [] = [rev cur]"
| "split_go sep k cur (c # cs) =
     (if 0 < k then split_go sep (k - 1) cur cs
      else if sep \<noteq> [] \<and> take (length sep) (c # cs) = sep
           then rev cur # split_go sep (length sep - 1) [] cs
      else split_go sep 0 (c # cur) cs)"

definition py_split :: "string \<Rightarrow> string \<Rightarrow> string list" where
  "py_split sep s = split_go sep 0 [] s"

text \<open>\<open>xs[i]\<close> for \<open>i \<ge> 0\<close>: \<open>IndexError\<close> when out of range.\<close>

definition py_index :: "'a list \<Rightarrow> nat \<Rightarrow> py_error + 'a" where
  "py_index xs i = (if i < length xs then Inr (xs ! i) else Inl IndexError)"

section \<open>JSON values\<close>

text \<open>
  The value space of \<open>json.loads\<close> and \<open>json.dumps\<close>, without floats. An object keeps its
  members in the order of the text; looking a key up takes the last member with that
  key, as the dict built by \<open>json.loads\<close> does.
\<close>

datatype json =
    JNull
  | JBool bool
  | JInt int
  | JString string
  | JArray "json list"
  | JObject "(string \<times> json) list"

definition dict_get :: "(string \<times> json) list \<Rightarrow> string \<Rightarrow> json option" where
  "dict_get kvs k = map_of (rev kvs) k"

subsection \<open>A decoder for the integer fragment of JSON\<close>

text \<open>
  \<open>json.loads\<close> is library code. The functions below that call it take the decoder as
  the parameter \<open>loads\<close> (\<open>None\<close> when it raises). \<open>json_loads\<close> is the instance used for
  concrete inputs: objects, arrays, strings with the one-character escapes, integers,
  \<open>true\<close>, \<open>false\<close>, \<open>null\<close>; it gives \<open>None\<close> on any other text.
\<close>

definition is_ws :: "char \<Rightarrow> bool" where
  "is_ws c = (c = CHR '' '' \<or> c = CHR 0x09 \<or> c = CHR 0x0A \<or> c = CHR 0x0D)"

fun skip_ws :: "string \<Rightarrow> string" where
  "skip_ws [] = []"
| "skip_ws (c # cs) = (if is_ws c then skip_ws cs else c # cs)"

definition is_digit :: "char \<Rightarrow> bool" where
  "is_digit c = (c \<in> set ''0123456789'')"

fun scan_digits :: "string \<Rightarrow> string \<times> string" where
  "scan_digits [] = ([], [])"
| "scan_digits (c # cs) =
     (if is_digit c then (case scan_digits cs of (ds, r) \<Rightarrow> (c # ds, r)) else ([], c # cs))"

definition digits_val :: "string \<Rightarrow> nat" where
  "digits_val ds = foldl (\<lambda>a c. 10 * a + (of_char c - 48)) 0 ds"

definition scan_int :: "string \<Rightarrow> (json \<times> string) option" where
  "scan_int s =
     (let neg = (s \<noteq> [] \<and> hd s = CHR ''-'');
          (ds, r) = scan_digits (if neg then tl s else s)
      in if ds = [] \<or> (1 < length ds \<and> hd ds = CHR ''0'') then None
         else if r \<noteq> [] \<and> hd r \<in> set ''.eE'' then None
         else Some (JInt (if neg then - int (digits_val ds) else int (digits_val ds)), r))"

definition unescape :: "char \<Rightarrow> char option" where
  "unescape e =
     (if e = CHR 0x22 \<or> e = CHR 0x5C \<or> e = CHR ''/'' then Some e
      else if e = CHR ''b'' then Some (CHR 0x08)
      else if e = CHR ''f'' then Some (CHR 0x0C)
      else if e = CHR ''n'' then Some (CHR 0x0A)
      else if e = CHR ''r'' then Some (CHR 0x0D)
      else if e = CHR ''t'' then Some (CHR 0x09)
      else None)"

text \<open>The text after an opening quote: the string's characters and what follows the closing quote.\<close>

fun scan_string :: "string \<Rightarrow> (string \<times> string) option" where
  "scan_string [] = None"
| "scan_string [c] = (if c = CHR 0x22 then Some ([], []) else None)"
| "scan_string (c # e # r) =
     (if c = CHR 0x22 then Some ([], e # r)
      else if c = CHR 0x5C then
        (case unescape e of
           None \<Rightarrow> None
         | Some ch \<Rightarrow> (case scan_string r of None \<Rightarrow> None | Some (s, r') \<Rightarrow> Some (ch # s, r')))
      else if (of_char c :: nat) < 32 then None
      else (case scan_string (e # r) of None \<Rightarrow> None | Some (s, r') \<Rightarrow> Some (c # s, r')))"

text \<open>Recursive descent; the first argument bounds the depth of the recursion.\<close>

fun parse_value :: "nat \<Rightarrow> string \<Rightarrow> (json \<times> string) option"
  and parse_elements :: "nat \<Rightarrow> string \<Rightarrow> (json list \<times> string) option"
  and parse_members :: "nat \<Rightarrow> string \<Rightarrow> ((string \<times> json) list \<times> string) option"
where
  "parse_value 0 s = None"
| "parse_value (Suc n) s =
     (case skip_ws s of
        [] \<Rightarrow> None
      | c # cs \<Rightarrow>
          if c = CHR ''{'' then
            (case skip_ws cs of
               [] \<Rightarrow> None
             | d # ds \<Rightarrow>
                 if d = CHR ''}'' then Some (JObject [], ds)
                 else (case parse_members n (d # ds) of
                         None \<Rightarrow> None
                       | Some (ms, r) \<Rightarrow> Some (JObject ms, r)))
          else if c = CHR ''['' then
            (case skip_ws cs of
               [] \<Rightarrow> None
             | d # ds \<Rightarrow>
                 if d = CHR '']'' then Some (JArray [], ds)
                 else (case parse_elements n (d # ds) of
                         None \<Rightarrow> None
                       | Some (vs, r) \<Rightarrow> Some (JArray vs, r)))
          else if c = CHR 0x22 then
            (case scan_string cs of None \<Rightarrow> None | Some (x, r) \<Rightarrow> Some (JString x, r))
          else if take 4 (c # cs) = ''true'' then Some (JBool True, drop 4 (c # cs))
          else if take 5 (c # cs) = ''false'' then Some (JBool False, drop 5 (c # cs))
          else if take 4 (c # cs) = ''null'' then Some (JNull, drop 4 (c # cs))
          else scan_int (c # cs))"
| "parse_elements 0 s = None"
| "parse_elements (Suc n) s =
     (case parse_value n s of
        None \<Rightarrow> None
      | Some (v, r) \<Rightarrow>
          (case skip_ws r of
             [] \<Rightarrow> None
           | c # cs \<Rightarrow>
               if c = CHR '','' then
                 (case parse_elements n cs of
                    None \<Rightarrow> None
                  | Some (vs, r') \<Rightarrow> Some (v # vs, r'))
               else if c = CHR '']'' then Some ([v], cs)
               else None))"
| "parse_members 0 s = None"
| "parse_members (Suc n) s =
     (case skip_ws s of
        [] \<Rightarrow> None
      | c # cs \<Rightarrow>
          if c \<noteq> CHR 0x22 then None
          else
            (case scan_string cs of
               None \<Rightarrow> None
             | Some (k, r) \<Rightarrow>
                 (case skip_ws r of
                    [] \<Rightarrow> None
                  | c2 # r2 \<Rightarrow>
                      if c2 \<noteq> CHR '':'' then None
                      else
                        (case parse_value n r2 of
                           None \<Rightarrow> None
                         | Some (v, r3) \<Rightarrow>
                             (case skip_ws r3 of
                                [] \<Rightarrow> None
                              | c3 # r4 \<Rightarrow>
                                  if c3 = CHR '','' then
                                    (case parse_members n r4 of
                                       None \<Rightarrow> None
                                     | Some (ms, r') \<Rightarrow> Some ((k, v) # ms, r'))
                                  else if c3 = CHR ''}'' then Some ([(k, v)], r4)
                                  else None)))))"

definition json_loads :: "string \<Rightarrow> json option" where
  "json_loads s =
     (case parse_value (2 * length s + 2) s of
        None \<Rightarrow> None
      | Some (v, r) \<Rightarrow> if skip_ws r = [] then Some v else None)"

subsection \<open>An encoder\<close>

text \<open>
  \<open>json.dumps\<close> is library code as well and enters the command functions as the parameter
  \<open>dumps\<close>. \<open>json_dumps\<close> is the instance used for concrete inputs; it writes what
  \<open>json.dumps\<close> writes with its default arguments: the separators \<open>", "\<close> and \<open>": "\<close>, and
  every character outside the printable ASCII range escaped.
\<close>

definition hex_digit :: "nat \<Rightarrow> char" where
  "hex_digit d = ''0123456789abcdef'' ! (d mod 16)"

definition escape_char :: "char \<Rightarrow> string" where
  "escape_char c =
     (if c = CHR 0x22 then [CHR 0x5C, CHR 0x22]
      else if c = CHR 0x5C then [CHR 0x5C, CHR 0x5C]
      else if c = CHR 0x0A then [CHR 0x5C, CHR ''n'']
      else if c = CHR 0x0D then [CHR 0x5C, CHR ''r'']
      else if c = CHR 0x09 then [CHR 0x5C, CHR ''t'']
      else if c = CHR 0x08 then [CHR 0x5C, CHR ''b'']
      else if c = CHR 0x0C then [CHR 0x5C, CHR ''f'']
      else if 32 \<le> (of_char c :: nat) \<and> (of_char c :: nat) \<le> 126 then [c]
      else [CHR 0x5C, CHR ''u'', CHR ''0'', CHR ''0'',
            hex_digit (of_char c div 16), hex_digit (of_char c)])"

definition dumps_string :: "string \<Rightarrow> string" where
  "dumps_string s = [CHR 0x22] @ concat (map escape_char s) @ [CHR 0x22]"

fun dec_nat :: "nat \<Rightarrow> string" where
  "dec_nat n =
     (if n < 10 then [char_of (48 + n)] else dec_nat (n div 10) @ [char_of (48 + n mod 10)])"

definition dumps_int :: "int \<Rightarrow> string" where
  "dumps_int i = (if i < 0 then CHR ''-'' # dec_nat (nat (- i)) else dec_nat (nat i))"

fun join :: "string \<Rightarrow> string list \<Rightarrow> string" where
  "join sep [] = []"
| "join sep [x] = x"
| "join sep (x # y # ys) = x @ sep @ join sep (y # ys)"

fun json_dumps :: "json \<Rightarrow> string" where
  "json_dumps JNull = ''null''"
| "json_dumps (JBool b) = (if b then ''true'' else ''false'')"
| "json_dumps (JInt i) = dumps_int i"
| "json_dumps (JString s) = dumps_string s"
| "json_dumps (JArray vs) = ''['' @ join '', '' (map json_dumps vs) @ '']''"
| "json_dumps (JObject kvs) =
     ''{'' @ join '', '' (map (\<lambda>(k, v). dumps_string k @ '': '' @ json_dumps v) kvs) @ ''}''"

section \<open>The serial transport\<close>

text \<open>
  The target object of the command classes: \<open>rx\<close> is the sequence of lines that
  \<open>str(target.readline())\<close> yields, \<open>rx_pos\<close> the number of lines read so far, \<open>tx\<close> the
  frames written so far, oldest first.
\<close>

record target =
  rx :: "nat \<Rightarrow> string"
  rx_pos :: nat
  tx :: "string list"

definition target_readline :: "target \<Rightarrow> string \<times> target" where
  "target_readline t = (rx t (rx_pos t), t\<lparr>rx_pos := Suc (rx_pos t)\<rparr>)"

definition target_write :: "string \<Rightarrow> target \<Rightarrow> target" where
  "target_write frame t = t\<lparr>tx := tx t @ [frame]\<rparr>"

text \<open>A line sequence for concrete inputs: the given lines, then empty reads.\<close>

definition stream_of :: "string list \<Rightarrow> nat \<Rightarrow> string" where
  "stream_of ls i = (if i < length ls then ls ! i else [])"

section \<open>target/communication/sca\_ml\_dsa\_commands.py\<close>

record otmldsa =
  simple_serial :: bool

definition OTMLDSA_init :: "string \<Rightarrow> otmldsa" where
  "OTMLDSA_init protocol = \<lparr> simple_serial = (protocol \<noteq> ''ujson'') \<rparr>"

text \<open>
  The output of \<open>json.dumps\<close> is ASCII, so \<open>encode("ascii")\<close> leaves it unchanged;
  \<open>time.sleep\<close> does not touch the transport.
\<close>

definition ujson_ml_dsa_sca_cmd :: "(json \<Rightarrow> string) \<Rightarrow> target \<Rightarrow> target" where
  "ujson_ml_dsa_sca_cmd dumps t = target_write (dumps (JString ''MlDsaSca'')) t"

text \<open>The error both read paths raise.\<close>

definition sync_error :: py_error where
  "sync_error = Exception ''Acknowledge error: Device and host not in sync''"

text \<open>\<open>read_line.split("RESP_OK:")[1].split(" CRC:")[0]\<close>\<close>

definition resp_body :: "string \<Rightarrow> py_error + string" where
  "resp_body read_line =
     (case py_index (py_split ''RESP_OK:'' read_line) 1 of
        Inl e \<Rightarrow> Inl e
      | Inr rest \<Rightarrow> py_index (py_split '' CRC:'' rest) 0)"

text \<open>
  \<open>json.loads(json_string)["result"]\<close> under \<open>try ... except Exception\<close>: a decoding error,
  a value that cannot be indexed by a string and a missing key all become the
  synchronisation error.
\<close>

definition loads_result :: "(string \<Rightarrow> json option) \<Rightarrow> string \<Rightarrow> py_error + json" where
  "loads_result loads json_string =
     (case loads json_string of
        Some (JObject kvs) \<Rightarrow>
          (case dict_get kvs ''result'' of None \<Rightarrow> Inl sync_error | Some v \<Rightarrow> Inr v)
      | _ \<Rightarrow> Inl sync_error)"

text \<open>
  The \<open>while\<close> loop of \<open>ml_dsa_sca_read_response\<close>. The counter advances only on a line
  without the marker, so the loop need not end; \<open>None\<close> stands for a call that never
  returns.
\<close>

partial_function (option) sca_read_loop ::
  "(string \<Rightarrow> json option) \<Rightarrow> int \<Rightarrow> int \<Rightarrow> target \<Rightarrow> ((py_error + json) \<times> target) option"
where
  "sca_read_loop loads num_attempts read_counter t =
     (if read_counter < num_attempts then
        (case target_readline t of
           (read_line, t') \<Rightarrow>
             if contains ''RESP_OK'' read_line then
               (case resp_body read_line of
                  Inl e \<Rightarrow> Some (Inl e, t')
                | Inr json_string \<Rightarrow>
                    if contains ''result'' json_string
                    then Some (loads_result loads json_string, t')
                    else sca_read_loop loads num_attempts read_counter t')
             else sca_read_loop loads num_attempts (read_counter + 1) t')
      else Some (Inl sync_error, t))"

definition ml_dsa_sca_read_response ::
  "(string \<Rightarrow> json option) \<Rightarrow> int \<Rightarrow> target \<Rightarrow> ((py_error + json) \<times> target) option"
where
  "ml_dsa_sca_read_response loads num_attempts t = sca_read_loop loads num_attempts 0 t"

text \<open>The \<open>while it != max_tries\<close> loop of \<open>read_response\<close>.\<close>

partial_function (option) read_response_loop ::
  "int \<Rightarrow> int \<Rightarrow> target \<Rightarrow> ((py_error + string) \<times> target) option"
where
  "read_response_loop max_tries it t =
     (if it \<noteq> max_tries then
        (case target_readline t of
           (read_line, t') \<Rightarrow>
             if contains ''RESP_OK'' read_line then Some (resp_body read_line, t')
             else read_response_loop max_tries (it + 1) t')
      else Some (Inr [], t))"

definition read_response :: "int \<Rightarrow> target \<Rightarrow> ((py_error + string) \<times> target) option" where
  "read_response max_tries t = read_response_loop max_tries 0 t"

text \<open>\<open>init\<close> returns the device ID, or Python's \<open>None\<close> under the simple-serial protocol.\<close>

definition init ::
  "otmldsa \<Rightarrow> (json \<Rightarrow> string) \<Rightarrow> target \<Rightarrow> ((py_error + string option) \<times> target) option"
where
  "init self dumps t =
     (if \<not> simple_serial self then
        (let t1 = ujson_ml_dsa_sca_cmd dumps t;
             t2 = target_write (dumps (JString ''Init'')) t1
         in case read_response 30 t2 of
              None \<Rightarrow> None
            | Some (Inl e, t3) \<Rightarrow> Some (Inl e, t3)
            | Some (Inr device_id, t3) \<Rightarrow> Some (Inr (Some device_id), t3))
      else Some (Inr None, t))"

definition ml_dsa_vec_add_batch_fvsr ::
  "(json \<Rightarrow> string) \<Rightarrow> int list \<Rightarrow> int \<Rightarrow> target \<Rightarrow> target"
where
  "ml_dsa_vec_add_batch_fvsr dumps data num_segments' t =
     (let t1 = ujson_ml_dsa_sca_cmd dumps t;
          t2 = target_write (dumps (JString ''VecAddFvsr'')) t1;
          data' = JObject [(''data'', JArray (map JInt data)),
                           (''data_length'', JInt (4 * int (length data))),
                           (''iterations'', JInt num_segments')]
      in target_write (dumps data') t2)"

section \<open>capture/scopes/chipwhisperer/husky.py: the instrument\<close>




text \<open>
  The \<open>while not target.is_done()\<close> loop. \<open>is_done k\<close> is what the \<open>k\<close>-th call of the probe
  gives; each pass calls it once and then adds one to \<open>i\<close>. \<open>out\<close> collects the printed
  lines. The result is the final \<open>i\<close> with the output.
\<close>

partial_function (option) wait_target_done ::
  "(nat \<Rightarrow> bool) \<Rightarrow> nat \<Rightarrow> string list \<Rightarrow> (nat \<times> string list) option"
where
  "wait_target_done is_done i out =
     (if \<not> is_done i then
        wait_target_done is_done (i + 1)
          (if 100 < i + 1 then out @ [''Warning: Target did not finish operation''] else out)
      else Some (i, out))"

text \<open>
  \<open>capture_and_transfer_waves\<close>. \<open>ret\<close> is what \<open>scope.capture\<close> returns, \<open>last_trace\<close> what
  \<open>scope.get_last_trace\<close> returns, \<open>segmented\<close> what the segmented scope returns in batch
  mode. The result is the array of traces, the number of probe calls and the printed
  lines.
\<close>

definition capture_and_transfer_waves ::
  "husky \<Rightarrow> bool \<Rightarrow> int list \<Rightarrow> int list list \<Rightarrow> (nat \<Rightarrow> bool)
     \<Rightarrow> (int list list \<times> nat \<times> string list) option"
where
  "capture_and_transfer_waves self ret last_trace segmented is_done =
     (if num_segments self = 1 then
        (case wait_target_done is_done 0 [] of
           None \<Rightarrow> None
         | Some (i, out) \<Rightarrow>
             Some ([last_trace], i + 1,
                   if ret then out @ [''Warning: Timeout happened during capture''] else out))
      else Some (segmented, 0, []))"

section \<open>Timing constants: properties\<close>

lemma py_int_of_int: "py_int (of_int n) = n"
  by (simp add: py_int_def)








lemma adc_mul_48: "adc_mul_of 48000000 = 4"
  by code_simp

lemma ratio_48: "sampling_target_ratio 48000000 2 = 2"
  by (simp add: sampling_target_ratio_def adc_mul_48)

lemma raw_48: "raw_num_samples 100 48000000 2 = 200"
  by (simp add: raw_num_samples_def ratio_48 py_int_def)


text \<open>
  Claim C5. With a PLL frequency of 48 MHz, the maximum sampling rate of 200 MHz, a target
  clock multiplier of 2 and 100 requested cycles, \<open>Husky.__init__\<close> computes the ADC
  multiplier 4, the sampling rate 192 MHz, the target frequency 96 MHz, the
  sampling-to-target ratio 2 and the raw sample count 200, which is raised to 201, the
  next multiple of 3. This holds for every gain, segment count and offset.
\<close>

theorem clock_plan_scenario:
  "adc_mul_of 48000000 = 4
   \<and> sampling_target_ratio 48000000 2 = 2
   \<and> raw_num_samples 100 48000000 2 = 200
   \<and> divisible_by_3 200 = 201
   \<and> Husky_init g 100 segs oc 48000000 2 =
       Inr \<lparr> scope = None, scope_gain = g, clkgen_freq = 48000000, adc_mul = 4,
             sampling_rate = 192000000, target_freq = 96000000,
             offset_samples = 2 * oc, num_samples = 201, num_segments = segs \<rparr>"
proof -
  have "py_int (rat_of_int oc * 2) = 2 * oc"
    using py_int_of_int[of "oc * 2"] by (simp add: mult.commute)
  then show ?thesis
    by (simp add: Husky_init_def adc_mul_48 ratio_48 raw_48 divisible_by_3_def Let_def)
qed






section \<open>Strings: properties\<close>

lemma contains_here: "contains sub (sub @ post)"
proof (cases "sub @ post")
  case Nil
  then show ?thesis by simp
next
  case (Cons c cs)
  have "take (length sub) (sub @ post) = sub" by simp
  then show ?thesis using Cons by simp
qed

lemma contains_append: "contains sub (pre @ sub @ post)"
proof (induction pre)
  case Nil
  show ?case by (simp add: contains_here)
next
  case (Cons p ps)
  then show ?case by simp
qed

lemma take_append_le: "n \<le> length xs \<Longrightarrow> take n (xs @ ys) = take n xs"
  by simp

lemma split_go_skip: "split_go sep (length xs) cur (xs @ ys) = split_go sep 0 cur ys"
  by (induction xs) auto

lemma split_go_match:
  assumes "sep \<noteq> []"
  shows "split_go sep 0 cur (sep @ rest) = rev cur # split_go sep 0 [] rest"
proof -
  obtain c cs where sep: "sep = c # cs" using assms by (cases sep) auto
  have "split_go sep 0 cur (c # cs @ rest) = rev cur # split_go sep (length cs) [] (cs @ rest)"
    using sep by simp
  then show ?thesis using sep by (simp add: split_go_skip)
qed

text \<open>
  When \<open>sep\<close> does not occur in \<open>pre\<close> followed by all but the last character of \<open>sep\<close>, its
  first occurrence in \<open>pre @ sep @ rest\<close> is the one after \<open>pre\<close>, and \<open>pre\<close> is the first piece.
\<close>

lemma split_go_first:
  assumes "sep \<noteq> []" and "\<not> contains sep (pre @ take (length sep - 1) sep)"
  shows "split_go sep 0 cur (pre @ sep @ rest) = (rev cur @ pre) # split_go sep 0 [] rest"
  using assms(2)
proof (induction pre arbitrary: cur)
  case Nil
  then show ?case by (simp add: split_go_match[OF assms(1)])
next
  case (Cons p ps)
  let ?n = "length sep"
  let ?A = "p # ps @ take (?n - 1) sep"
  let ?B = "drop (?n - 1) sep @ rest"
  have no_here: "take ?n ?A \<noteq> sep" and no_later: "\<not> contains sep (ps @ take (?n - 1) sep)"
    using Cons.prems by auto
  have len: "?n \<le> length ?A" using assms(1) by (cases sep) auto
  have whole: "p # ps @ sep @ rest = ?A @ ?B" by simp
  have "take ?n (?A @ ?B) = take ?n ?A" by (rule take_append_le[OF len])
  then have "take ?n (p # ps @ sep @ rest) \<noteq> sep"
    using no_here whole by metis
  then show ?case using Cons.IH[OF no_later, of "p # cur"] by simp
qed

lemma split_go_none:
  assumes "\<not> contains sep s"
  shows "split_go sep 0 cur s = [rev cur @ s]"
  using assms by (induction s arbitrary: cur) auto

text \<open>
  A line of the shape \<open>pre RESP_OK:body CRC:post\<close>, with the marker occurring once and no
  checksum delimiter inside \<open>body\<close>, has \<open>body\<close> as its response body.
\<close>

lemma resp_body_between:
  assumes "\<not> contains ''RESP_OK:'' (pre @ ''RESP_OK'')"
    and "\<not> contains ''RESP_OK:'' (body @ '' CRC:'' @ post)"
    and "\<not> contains '' CRC:'' (body @ '' CRC'')"
  shows "resp_body (pre @ ''RESP_OK:'' @ body @ '' CRC:'' @ post) = Inr body"
proof -
  let ?rest = "body @ '' CRC:'' @ post"
  have "split_go ''RESP_OK:'' 0 [] (pre @ ''RESP_OK:'' @ ?rest)
          = (rev [] @ pre) # split_go ''RESP_OK:'' 0 [] ?rest"
    using assms(1) by (intro split_go_first) simp_all
  then have marker: "py_split ''RESP_OK:'' (pre @ ''RESP_OK:'' @ ?rest) = [pre, ?rest]"
    using split_go_none[OF assms(2), of "[]"] by (simp add: py_split_def)
  have "split_go '' CRC:'' 0 [] (body @ '' CRC:'' @ post)
          = (rev [] @ body) # split_go '' CRC:'' 0 [] post"
    using assms(3) by (intro split_go_first) simp_all
  then have crc: "py_index (py_split '' CRC:'' ?rest) 0 = Inr body"
    by (simp add: py_split_def py_index_def)
  show ?thesis
    unfolding resp_body_def using marker crc by (simp add: py_index_def)
qed

section \<open>Reading responses: properties\<close>

lemma sca_step_no_marker:
  assumes "c < n" and "\<not> contains ''RESP_OK'' (rx t (rx_pos t))"
  shows "sca_read_loop loads n c t
           = sca_read_loop loads n (c + 1) (t\<lparr>rx_pos := Suc (rx_pos t)\<rparr>)"
  using assms by (subst sca_read_loop.simps) (simp add: target_readline_def)

lemma sca_step_no_result:
  assumes "c < n" and "contains ''RESP_OK'' (rx t (rx_pos t))"
    and "resp_body (rx t (rx_pos t)) = Inr body" and "\<not> contains ''result'' body"
  shows "sca_read_loop loads n c t = sca_read_loop loads n c (t\<lparr>rx_pos := Suc (rx_pos t)\<rparr>)"
  using assms by (subst sca_read_loop.simps) (simp add: target_readline_def)

lemma sca_step_result:
  assumes "c < n" and "contains ''RESP_OK'' (rx t (rx_pos t))"
    and "resp_body (rx t (rx_pos t)) = Inr body" and "contains ''result'' body"
  shows "sca_read_loop loads n c t
           = Some (loads_result loads body, t\<lparr>rx_pos := Suc (rx_pos t)\<rparr>)"
  using assms by (subst sca_read_loop.simps) (simp add: target_readline_def)

lemma sca_exhausted:
  assumes "\<not> c < n"
  shows "sca_read_loop loads n c t = Some (Inl sync_error, t)"
  using assms by (subst sca_read_loop.simps) simp

lemma sca_no_marker_run:
  assumes "\<forall>i<k. \<not> contains ''RESP_OK'' (rx t (rx_pos t + i))" and "c + int k = n"
  shows "sca_read_loop loads n c t = Some (Inl sync_error, t\<lparr>rx_pos := rx_pos t + k\<rparr>)"
  using assms
proof (induction k arbitrary: c t)
  case 0
  then show ?case by (simp add: sca_exhausted)
next
  case (Suc k)
  let ?t = "t\<lparr>rx_pos := Suc (rx_pos t)\<rparr>"
  have lt: "c < n" using Suc.prems(2) by simp
  have here: "\<not> contains ''RESP_OK'' (rx t (rx_pos t))"
    using Suc.prems(1) by (metis add.right_neutral zero_less_Suc)
  have rest: "\<forall>i<k. \<not> contains ''RESP_OK'' (rx ?t (rx_pos ?t + i))"
    using Suc.prems(1) by auto
  have "sca_read_loop loads n (c + 1) ?t = Some (Inl sync_error, ?t\<lparr>rx_pos := rx_pos ?t + k\<rparr>)"
    using Suc.IH[OF rest] Suc.prems(2) by simp
  then show ?case
    by (simp add: sca_step_no_marker[OF lt here])
qed

lemma stream_of_Nil: "stream_of [] i = []"
  by (simp add: stream_of_def)

text \<open>
  Claim C4. For every line sequence and every \<open>num_attempts > 0\<close>: when none of the next
  \<open>num_attempts\<close> lines contains \<open>RESP_OK\<close>, \<open>ml_dsa_sca_read_response\<close> reads exactly these
  lines and raises the synchronisation error; it returns no value.
\<close>

theorem no_marker_desync:
  assumes "0 < n" and "\<forall>i < nat n. \<not> contains ''RESP_OK'' (rx t (rx_pos t + i))"
  shows "ml_dsa_sca_read_response loads n t
           = Some (Inl sync_error, t\<lparr>rx_pos := rx_pos t + nat n\<rparr>)"
  unfolding ml_dsa_sca_read_response_def
  using assms by (intro sca_no_marker_run) auto

theorem no_marker_desync_witness:
  "(0::int) < 3
   \<and> \<not> (\<exists>i. i < nat 3 \<and> contains ''RESP_OK''
          (rx \<lparr>rx = stream_of [], rx_pos = 0, tx = []\<rparr>
             (rx_pos \<lparr>rx = stream_of [], rx_pos = 0, tx = []\<rparr> + i)))
   \<and> ml_dsa_sca_read_response json_loads 3 \<lparr>rx = stream_of [], rx_pos = 0, tx = []\<rparr>
       = Some (Inl sync_error, \<lparr>rx = stream_of [], rx_pos = 3, tx = []\<rparr>)"
proof -
  let ?t = "\<lparr>rx = stream_of [], rx_pos = 0, tx = []\<rparr>"
  have a: "(0::int) < 3" by simp
  have b: "\<forall>i < nat 3. \<not> contains ''RESP_OK'' (rx ?t (rx_pos ?t + i))"
    by (simp add: stream_of_Nil)
  have c: "ml_dsa_sca_read_response json_loads 3 ?t
             = Some (Inl sync_error, \<lparr>rx = stream_of [], rx_pos = 3, tx = []\<rparr>)"
    using no_marker_desync[OF a b, of json_loads] by simp
  have d: "\<not> (\<exists>i. i < nat 3 \<and> contains ''RESP_OK'' (rx ?t (rx_pos ?t + i)))"
    using b by blast
  show ?thesis
    by (intro conjI) (rule a d c)+
qed

lemma bad_marker: "contains ''RESP_OK'' ''RESP_OK:{not-json} CRC:x''"
  by code_simp

lemma bad_body: "resp_body ''RESP_OK:{not-json} CRC:x'' = Inr ''{not-json}''"
  by code_simp

lemma bad_no_result: "\<not> contains ''result'' ''{not-json}''"
  by code_simp

lemma good_marker: "contains ''RESP_OK'' ''junk RESP_OK:{\"result\":42} CRC:abc''"
  by code_simp

lemma good_body: "resp_body ''junk RESP_OK:{\"result\":42} CRC:abc'' = Inr ''{\"result\":42}''"
  by code_simp

lemma good_result: "contains ''result'' ''{\"result\":42}''"
  by code_simp

lemma good_loads: "loads_result json_loads ''{\"result\":42}'' = Inr (JInt 42)"
  by code_simp

lemma good_json: "json_loads ''{\"result\":42}'' = Some (JObject [(''result'', JInt 42)])"
  by code_simp

lemma good_pre: "\<not> contains ''RESP_OK:'' (''junk '' @ ''RESP_OK'')"
  by code_simp

lemma good_once: "\<not> contains ''RESP_OK:'' (''{\"result\":42}'' @ '' CRC:'' @ ''abc'')"
  by code_simp

lemma good_crc: "\<not> contains '' CRC:'' (''{\"result\":42}'' @ '' CRC'')"
  by code_simp

lemma good_get: "dict_get [(''result'', JInt 42)] ''result'' = Some (JInt 42)"
  by code_simp

lemma broken_marker: "contains ''RESP_OK'' ''RESP_OK:{\"result\":} CRC:x''"
  by code_simp

lemma broken_body: "resp_body ''RESP_OK:{\"result\":} CRC:x'' = Inr ''{\"result\":}''"
  by code_simp

lemma broken_result: "contains ''result'' ''{\"result\":}''"
  by code_simp

lemma broken_json: "json_loads ''{\"result\":}'' = None"
  by code_simp

lemma loads_result_None: "loads body = None \<Longrightarrow> loads_result loads body = Inl sync_error"
  by (simp add: loads_result_def)

lemma loads_result_Some:
  "loads body = Some (JObject kvs) \<Longrightarrow> dict_get kvs ''result'' = Some v
     \<Longrightarrow> loads_result loads body = Inr v"
  by (simp add: loads_result_def)

lemma marker_in_line: "contains ''RESP_OK'' (pre @ ''RESP_OK:'' @ rest)"
proof -
  have "pre @ ''RESP_OK:'' @ rest = pre @ ''RESP_OK'' @ ('':'' @ rest)" by simp
  then show ?thesis using contains_append[of "''RESP_OK''" pre "'':'' @ rest"] by (simp only:)
qed

text \<open>
  Claim C1, as amended. In any pass of the loop of \<open>ml_dsa_sca_read_response\<close> (counter below
  \<open>num_attempts\<close>) that reads a line with the marker and a response body: when the body
  contains the text \<open>result\<close> and does not decode, the call raises the synchronisation error
  on that line and reads no further line; when the body does not contain the text
  \<open>result\<close>, the line is skipped, the counter stays, and the call goes on with the next line.
\<close>

theorem malformed_result_body_desync:
  assumes "c < n"
    and "contains ''RESP_OK'' (rx t (rx_pos t))"
    and "resp_body (rx t (rx_pos t)) = Inr body"
  shows "(contains ''result'' body \<and> loads body = None
            \<longrightarrow> sca_read_loop loads n c t = Some (Inl sync_error, t\<lparr>rx_pos := Suc (rx_pos t)\<rparr>))
       \<and> (\<not> contains ''result'' body
            \<longrightarrow> sca_read_loop loads n c t = sca_read_loop loads n c (t\<lparr>rx_pos := Suc (rx_pos t)\<rparr>))"
  using sca_step_result[OF assms, of loads] sca_step_no_result[OF assms, of loads]
  by (simp add: loads_result_None)

theorem malformed_result_body_desync_witness:
  "(0::int) < 100
   \<and> contains ''RESP_OK'' (stream_of [''RESP_OK:{\"result\":} CRC:x''] 0)
   \<and> resp_body (stream_of [''RESP_OK:{\"result\":} CRC:x''] 0) = Inr ''{\"result\":}''
   \<and> contains ''result'' ''{\"result\":}''
   \<and> json_loads ''{\"result\":}'' = None
   \<and> sca_read_loop json_loads 100 0
         \<lparr>rx = stream_of [''RESP_OK:{\"result\":} CRC:x''], rx_pos = 0, tx = []\<rparr>
       = Some (Inl sync_error,
           \<lparr>rx = stream_of [''RESP_OK:{\"result\":} CRC:x''], rx_pos = 1, tx = []\<rparr>)
   \<and> contains ''RESP_OK'' (stream_of [''RESP_OK:{not-json} CRC:x''] 0)
   \<and> resp_body (stream_of [''RESP_OK:{not-json} CRC:x''] 0) = Inr ''{not-json}''
   \<and> \<not> contains ''result'' ''{not-json}''
   \<and> sca_read_loop json_loads 100 0
         \<lparr>rx = stream_of [''RESP_OK:{not-json} CRC:x''], rx_pos = 0, tx = []\<rparr>
       = sca_read_loop json_loads 100 0
           \<lparr>rx = stream_of [''RESP_OK:{not-json} CRC:x''], rx_pos = 1, tx = []\<rparr>"
proof -
  let ?a = "\<lparr>rx = stream_of [''RESP_OK:{\"result\":} CRC:x''], rx_pos = 0, tx = []\<rparr>"
  let ?b = "\<lparr>rx = stream_of [''RESP_OK:{not-json} CRC:x''], rx_pos = 0, tx = []\<rparr>"
  have n: "(0::int) < 100" by simp
  have la: "stream_of [''RESP_OK:{\"result\":} CRC:x''] 0 = ''RESP_OK:{\"result\":} CRC:x''"
    by (simp add: stream_of_def)
  have lb: "stream_of [''RESP_OK:{not-json} CRC:x''] 0 = ''RESP_OK:{not-json} CRC:x''"
    by (simp add: stream_of_def)
  have ma: "contains ''RESP_OK'' (rx ?a (rx_pos ?a))" by (simp add: la broken_marker)
  have ba: "resp_body (rx ?a (rx_pos ?a)) = Inr ''{\"result\":}''"
    by (simp add: la broken_body)
  have mb: "contains ''RESP_OK'' (rx ?b (rx_pos ?b))" by (simp add: lb bad_marker)
  have bb: "resp_body (rx ?b (rx_pos ?b)) = Inr ''{not-json}''" by (simp add: lb bad_body)
  have ra: "sca_read_loop json_loads 100 0 ?a
              = Some (Inl sync_error, ?a\<lparr>rx_pos := Suc (rx_pos ?a)\<rparr>)"
    using malformed_result_body_desync[OF n ma ba, of json_loads] broken_result broken_json
    by blast
  have rb: "sca_read_loop json_loads 100 0 ?b
              = sca_read_loop json_loads 100 0 (?b\<lparr>rx_pos := Suc (rx_pos ?b)\<rparr>)"
    using malformed_result_body_desync[OF n mb bb, of json_loads] bad_no_result
    by blast
  show ?thesis
    using n ra rb broken_result broken_json bad_no_result
    by (simp add: la lb broken_marker broken_body bad_marker bad_body)
qed

text \<open>
  The claim as first stated fails on its own example: the line
  \<open>RESP_OK:{not-json} CRC:x\<close> does not end the call. Followed by a line with a result,
  the call returns that result after reading two lines.
\<close>

theorem malformed_body_not_rejected_counterexample:
  "ml_dsa_sca_read_response json_loads 100
     \<lparr>rx = stream_of [''RESP_OK:{not-json} CRC:x'', ''junk RESP_OK:{\"result\":42} CRC:abc''],
      rx_pos = 0, tx = []\<rparr>
   = Some (Inr (JInt 42),
       \<lparr>rx = stream_of [''RESP_OK:{not-json} CRC:x'', ''junk RESP_OK:{\"result\":42} CRC:abc''],
        rx_pos = 2, tx = []\<rparr>)"
proof -
  let ?rx = "stream_of [''RESP_OK:{not-json} CRC:x'', ''junk RESP_OK:{\"result\":42} CRC:abc'']"
  let ?t0 = "\<lparr>rx = ?rx, rx_pos = 0, tx = []\<rparr>"
  let ?t1 = "\<lparr>rx = ?rx, rx_pos = Suc 0, tx = []\<rparr>"
  have l0: "?rx 0 = ''RESP_OK:{not-json} CRC:x''" by (simp add: stream_of_def)
  have l1: "?rx (Suc 0) = ''junk RESP_OK:{\"result\":42} CRC:abc''" by (simp add: stream_of_def)
  have s0: "sca_read_loop json_loads 100 0 ?t0 = sca_read_loop json_loads 100 0 ?t1"
    using sca_step_no_result[of 0 100 ?t0 "''{not-json}''" json_loads]
    by (simp add: l0 bad_marker bad_body bad_no_result)
  have s1: "sca_read_loop json_loads 100 0 ?t1
              = Some (loads_result json_loads ''{\"result\":42}'', \<lparr>rx = ?rx, rx_pos = 2, tx = []\<rparr>)"
    using sca_step_result[of 0 100 ?t1 "''{\"result\":42}''" json_loads]
    by (simp add: l1 good_marker good_body good_result)
  show ?thesis
    unfolding ml_dsa_sca_read_response_def by (simp only: s0 s1 good_loads)
qed

text \<open>
  Claim C8. With \<open>num_attempts > 0\<close>, a first line \<open>junk RESP_OK:{"result":42} CRC:abc\<close> makes
  \<open>ml_dsa_sca_read_response\<close> return 42 after reading that one line. In general, for a line
  \<open>pre RESP_OK:body CRC:post\<close> in which the marker occurs once and \<open>body\<close> holds no checksum
  delimiter, the text \<open>body\<close> alone is decoded, and when it is an object with the key
  \<open>result\<close>, the value of that key is returned.
\<close>

theorem resp_ok_result_extracted:
  assumes "0 < n"
  shows "(rx t (rx_pos t) = ''junk RESP_OK:{\"result\":42} CRC:abc''
            \<longrightarrow> ml_dsa_sca_read_response json_loads n t
                  = Some (Inr (JInt 42), t\<lparr>rx_pos := Suc (rx_pos t)\<rparr>))
       \<and> (rx t (rx_pos t) = pre @ ''RESP_OK:'' @ body @ '' CRC:'' @ post
            \<and> \<not> contains ''RESP_OK:'' (pre @ ''RESP_OK'')
            \<and> \<not> contains ''RESP_OK:'' (body @ '' CRC:'' @ post)
            \<and> \<not> contains '' CRC:'' (body @ '' CRC'')
            \<and> contains ''result'' body
            \<and> loads body = Some (JObject kvs) \<and> dict_get kvs ''result'' = Some v
            \<longrightarrow> ml_dsa_sca_read_response loads n t
                  = Some (Inr v, t\<lparr>rx_pos := Suc (rx_pos t)\<rparr>))"
proof (intro conjI impI)
  assume line: "rx t (rx_pos t) = ''junk RESP_OK:{\"result\":42} CRC:abc''"
  have "sca_read_loop json_loads n 0 t
          = Some (loads_result json_loads ''{\"result\":42}'', t\<lparr>rx_pos := Suc (rx_pos t)\<rparr>)"
    using assms by (intro sca_step_result) (simp_all only: line good_marker good_body good_result)
  then show "ml_dsa_sca_read_response json_loads n t
               = Some (Inr (JInt 42), t\<lparr>rx_pos := Suc (rx_pos t)\<rparr>)"
    by (simp only: ml_dsa_sca_read_response_def good_loads)
next
  assume h: "rx t (rx_pos t) = pre @ ''RESP_OK:'' @ body @ '' CRC:'' @ post
            \<and> \<not> contains ''RESP_OK:'' (pre @ ''RESP_OK'')
            \<and> \<not> contains ''RESP_OK:'' (body @ '' CRC:'' @ post)
            \<and> \<not> contains '' CRC:'' (body @ '' CRC'')
            \<and> contains ''result'' body
            \<and> loads body = Some (JObject kvs) \<and> dict_get kvs ''result'' = Some v"
  then have line: "rx t (rx_pos t) = pre @ ''RESP_OK:'' @ body @ '' CRC:'' @ post" by blast
  have marker: "contains ''RESP_OK'' (rx t (rx_pos t))"
    unfolding line by (rule marker_in_line)
  have body: "resp_body (rx t (rx_pos t)) = Inr body"
    unfolding line using h by (intro resp_body_between) blast+
  have res: "contains ''result'' body" using h by blast
  have "loads_result loads body = Inr v"
    using h by (intro loads_result_Some) blast+
  then show "ml_dsa_sca_read_response loads n t = Some (Inr v, t\<lparr>rx_pos := Suc (rx_pos t)\<rparr>)"
    unfolding ml_dsa_sca_read_response_def
    using sca_step_result[OF assms marker body res, of loads] by simp
qed

theorem resp_ok_result_extracted_witness:
  "(0::int) < 100
   \<and> rx \<lparr>rx = stream_of [''junk RESP_OK:{\"result\":42} CRC:abc''], rx_pos = 0, tx = []\<rparr>
        (rx_pos \<lparr>rx = stream_of [''junk RESP_OK:{\"result\":42} CRC:abc''], rx_pos = 0, tx = []\<rparr>)
       = ''junk '' @ ''RESP_OK:'' @ ''{\"result\":42}'' @ '' CRC:'' @ ''abc''
   \<and> \<not> contains ''RESP_OK:'' (''junk '' @ ''RESP_OK'')
   \<and> \<not> contains ''RESP_OK:'' (''{\"result\":42}'' @ '' CRC:'' @ ''abc'')
   \<and> \<not> contains '' CRC:'' (''{\"result\":42}'' @ '' CRC'')
   \<and> contains ''result'' ''{\"result\":42}''
   \<and> json_loads ''{\"result\":42}'' = Some (JObject [(''result'', JInt 42)])
   \<and> dict_get [(''result'', JInt 42)] ''result'' = Some (JInt 42)
   \<and> ml_dsa_sca_read_response json_loads 100
        \<lparr>rx = stream_of [''junk RESP_OK:{\"result\":42} CRC:abc''], rx_pos = 0, tx = []\<rparr>
       = Some (Inr (JInt 42),
           \<lparr>rx = stream_of [''junk RESP_OK:{\"result\":42} CRC:abc''], rx_pos = 1, tx = []\<rparr>)"
proof -
  let ?t = "\<lparr>rx = stream_of [''junk RESP_OK:{\"result\":42} CRC:abc''], rx_pos = 0, tx = []\<rparr>"
  have n: "(0::int) < 100" by simp
  have line: "rx ?t (rx_pos ?t)
                = ''junk '' @ ''RESP_OK:'' @ ''{\"result\":42}'' @ '' CRC:'' @ ''abc''"
    by (simp add: stream_of_def)
  have hyps: "rx ?t (rx_pos ?t)
                = ''junk '' @ ''RESP_OK:'' @ ''{\"result\":42}'' @ '' CRC:'' @ ''abc''
              \<and> \<not> contains ''RESP_OK:'' (''junk '' @ ''RESP_OK'')
              \<and> \<not> contains ''RESP_OK:'' (''{\"result\":42}'' @ '' CRC:'' @ ''abc'')
              \<and> \<not> contains '' CRC:'' (''{\"result\":42}'' @ '' CRC'')
              \<and> contains ''result'' ''{\"result\":42}''
              \<and> json_loads ''{\"result\":42}'' = Some (JObject [(''result'', JInt 42)])
              \<and> dict_get [(''result'', JInt 42)] ''result'' = Some (JInt 42)"
    using line good_pre good_once good_crc good_result good_json good_get by blast
  have both: "ml_dsa_sca_read_response json_loads 100 ?t
          = Some (Inr (JInt 42), ?t\<lparr>rx_pos := Suc (rx_pos ?t)\<rparr>)"
    using resp_ok_result_extracted[OF n, where t = ?t and pre = "''junk ''"
        and body = "''{\"result\":42}''" and post = "''abc''" and loads = json_loads
        and kvs = "[(''result'', JInt 42)]" and v = "JInt 42"] hyps
    by blast
  have "ml_dsa_sca_read_response json_loads 100 ?t
          = Some (Inr (JInt 42), \<lparr>rx = rx ?t, rx_pos = 1, tx = []\<rparr>)"
    using both by simp
  then show ?thesis
    using n hyps by simp
qed

lemma rr_step_no_marker:
  assumes "it \<noteq> max_tries" and "\<not> contains ''RESP_OK'' (rx t (rx_pos t))"
  shows "read_response_loop max_tries it t
           = read_response_loop max_tries (it + 1) (t\<lparr>rx_pos := Suc (rx_pos t)\<rparr>)"
  using assms by (subst read_response_loop.simps) (simp add: target_readline_def)

lemma rr_done: "read_response_loop max_tries max_tries t = Some (Inr [], t)"
  by (subst read_response_loop.simps) simp

lemma rr_no_marker_run:
  assumes "\<forall>i<k. \<not> contains ''RESP_OK'' (rx t (rx_pos t + i))" and "it + int k = max_tries"
  shows "read_response_loop max_tries it t = Some (Inr [], t\<lparr>rx_pos := rx_pos t + k\<rparr>)"
  using assms
proof (induction k arbitrary: it t)
  case 0
  then show ?case by (simp add: rr_done)
next
  case (Suc k)
  let ?t = "t\<lparr>rx_pos := Suc (rx_pos t)\<rparr>"
  have ne: "it \<noteq> max_tries" using Suc.prems(2) by simp
  have here: "\<not> contains ''RESP_OK'' (rx t (rx_pos t))"
    using Suc.prems(1) by (metis add.right_neutral zero_less_Suc)
  have rest: "\<forall>i<k. \<not> contains ''RESP_OK'' (rx ?t (rx_pos ?t + i))"
    using Suc.prems(1) by auto
  have "read_response_loop max_tries (it + 1) ?t = Some (Inr [], ?t\<lparr>rx_pos := rx_pos ?t + k\<rparr>)"
    using Suc.IH[OF rest] Suc.prems(2) by simp
  then show ?case
    by (simp add: rr_step_no_marker[OF ne here])
qed

lemma dumps_init: "json_dumps (JString ''Init'') = ''\"Init\"''"
  by code_simp

lemma dumps_mode: "json_dumps (JString ''MlDsaSca'') = ''\"MlDsaSca\"''"
  by code_simp

lemma dumps_op: "json_dumps (JString ''VecAddFvsr'') = ''\"VecAddFvsr\"''"
  by code_simp

lemma dumps_payload:
  "json_dumps (JObject [(''data'', JArray [JInt 1, JInt 2, JInt 3, JInt 4]),
                        (''data_length'', JInt 16), (''iterations'', JInt 10)])
     = ''{\"data\": [1, 2, 3, 4], \"data_length\": 16, \"iterations\": 10}''"
  by code_simp

lemma loads_payload:
  "json_loads ''{\"data\": [1, 2, 3, 4], \"data_length\": 16, \"iterations\": 10}''
     = Some (JObject [(''data'', JArray [JInt 1, JInt 2, JInt 3, JInt 4]),
                      (''data_length'', JInt 16), (''iterations'', JInt 10)])"
  by code_simp

lemma vec_add_tx:
  "tx (ml_dsa_vec_add_batch_fvsr dumps data iters t)
     = tx t @ [dumps (JString ''MlDsaSca''), dumps (JString ''VecAddFvsr''),
               dumps (JObject [(''data'', JArray (map JInt data)),
                               (''data_length'', JInt (4 * int (length data))),
                               (''iterations'', JInt iters)])]"
  by (simp add: ml_dsa_vec_add_batch_fvsr_def ujson_ml_dsa_sca_cmd_def target_write_def Let_def)

text \<open>
  Claim C10. For every line sequence and every \<open>max_tries \<ge> 1\<close>: when none of the next
  \<open>max_tries\<close> lines contains \<open>RESP_OK\<close>, \<open>read_response\<close> reads these lines and returns the
  empty string; it raises nothing. So \<open>init\<close>, under the uJSON protocol, writes its two
  frames and returns the empty string as the device ID when none of the next 30 lines
  contains the marker.
\<close>

theorem read_response_no_ack_empty:
  "(1 \<le> max_tries \<and> (\<forall>i < nat max_tries. \<not> contains ''RESP_OK'' (rx t (rx_pos t + i)))
      \<longrightarrow> read_response max_tries t
            = Some (Inr [], t\<lparr>rx_pos := rx_pos t + nat max_tries\<rparr>))
   \<and> (\<not> simple_serial self \<and> (\<forall>i < 30. \<not> contains ''RESP_OK'' (rx t (rx_pos t + i)))
      \<longrightarrow> init self dumps t
            = Some (Inr (Some []),
                t\<lparr>rx_pos := rx_pos t + 30,
                  tx := tx t @ [dumps (JString ''MlDsaSca''), dumps (JString ''Init'')]\<rparr>))"
proof (intro conjI impI)
  assume h: "1 \<le> max_tries \<and> (\<forall>i < nat max_tries. \<not> contains ''RESP_OK'' (rx t (rx_pos t + i)))"
  then show "read_response max_tries t = Some (Inr [], t\<lparr>rx_pos := rx_pos t + nat max_tries\<rparr>)"
    unfolding read_response_def by (intro rr_no_marker_run) auto
next
  assume h: "\<not> simple_serial self \<and> (\<forall>i < 30. \<not> contains ''RESP_OK'' (rx t (rx_pos t + i)))"
  let ?t2 = "target_write (dumps (JString ''Init'')) (ujson_ml_dsa_sca_cmd dumps t)"
  have rxs: "rx ?t2 = rx t" "rx_pos ?t2 = rx_pos t"
    by (simp_all add: target_write_def ujson_ml_dsa_sca_cmd_def)
  have "\<forall>i < 30. \<not> contains ''RESP_OK'' (rx ?t2 (rx_pos ?t2 + i))"
    using h by (simp only: rxs) blast
  then have "read_response_loop 30 0 ?t2 = Some (Inr [], ?t2\<lparr>rx_pos := rx_pos ?t2 + 30\<rparr>)"
    by (intro rr_no_marker_run) auto
  then show "init self dumps t
            = Some (Inr (Some []),
                t\<lparr>rx_pos := rx_pos t + 30,
                  tx := tx t @ [dumps (JString ''MlDsaSca''), dumps (JString ''Init'')]\<rparr>)"
    using h by (simp add: init_def read_response_def Let_def target_write_def ujson_ml_dsa_sca_cmd_def)
qed

theorem read_response_no_ack_empty_witness:
  "(1::int) \<le> 2
   \<and> \<not> (\<exists>i. i < nat 2 \<and> contains ''RESP_OK''
          (rx \<lparr>rx = stream_of [], rx_pos = 0, tx = []\<rparr>
             (rx_pos \<lparr>rx = stream_of [], rx_pos = 0, tx = []\<rparr> + i)))
   \<and> read_response 2 \<lparr>rx = stream_of [], rx_pos = 0, tx = []\<rparr>
       = Some (Inr [], \<lparr>rx = stream_of [], rx_pos = 2, tx = []\<rparr>)
   \<and> \<not> simple_serial (OTMLDSA_init ''ujson'')
   \<and> \<not> (\<exists>i. i < 30 \<and> contains ''RESP_OK''
          (rx \<lparr>rx = stream_of [], rx_pos = 0, tx = []\<rparr>
             (rx_pos \<lparr>rx = stream_of [], rx_pos = 0, tx = []\<rparr> + i)))
   \<and> init (OTMLDSA_init ''ujson'') json_dumps \<lparr>rx = stream_of [], rx_pos = 0, tx = []\<rparr>
       = Some (Inr (Some []),
           \<lparr>rx = stream_of [], rx_pos = 30, tx = [''\"MlDsaSca\"'', ''\"Init\"'']\<rparr>)"
proof -
  let ?t = "\<lparr>rx = stream_of [], rx_pos = 0, tx = []\<rparr>"
  have a: "(1::int) \<le> 2" by simp
  have b: "\<forall>i < nat 2. \<not> contains ''RESP_OK'' (rx ?t (rx_pos ?t + i))"
    by (simp add: stream_of_Nil)
  have c: "\<not> simple_serial (OTMLDSA_init ''ujson'')"
    by (simp add: OTMLDSA_init_def)
  have d: "\<forall>i < 30. \<not> contains ''RESP_OK'' (rx ?t (rx_pos ?t + i))"
    by (simp add: stream_of_Nil)
  have "read_response 2 ?t = Some (Inr [], ?t\<lparr>rx_pos := rx_pos ?t + nat 2\<rparr>)"
    using read_response_no_ack_empty[where max_tries = 2 and t = ?t] a b by blast
  then have r1: "read_response 2 ?t = Some (Inr [], \<lparr>rx = stream_of [], rx_pos = 2, tx = []\<rparr>)"
    by simp
  have "init (OTMLDSA_init ''ujson'') json_dumps ?t
       = Some (Inr (Some []), ?t\<lparr>rx_pos := rx_pos ?t + 30,
                  tx := tx ?t @ [json_dumps (JString ''MlDsaSca''), json_dumps (JString ''Init'')]\<rparr>)"
    using read_response_no_ack_empty[where t = ?t and self = "OTMLDSA_init ''ujson''"
        and dumps = json_dumps] c d
    by blast
  then have r2: "init (OTMLDSA_init ''ujson'') json_dumps ?t
       = Some (Inr (Some []),
           \<lparr>rx = stream_of [], rx_pos = 30, tx = [''\"MlDsaSca\"'', ''\"Init\"'']\<rparr>)"
    by (simp add: dumps_mode dumps_init del: json_dumps.simps)
  have b': "\<not> (\<exists>i. i < nat 2 \<and> contains ''RESP_OK'' (rx ?t (rx_pos ?t + i)))"
    using b by blast
  have d': "\<not> (\<exists>i. i < 30 \<and> contains ''RESP_OK'' (rx ?t (rx_pos ?t + i)))"
    using d by blast
  show ?thesis
    by (intro conjI) (rule a b' r1 c d' r2)+
qed

section \<open>The command frames: properties\<close>

text \<open>
  Claim C7. For the fixed vector \<open>[1, 2, 3, 4]\<close> and the iteration count 10,
  \<open>ml_dsa_vec_add_batch_fvsr\<close> writes exactly three frames, in this order: the encoded tag
  \<open>MlDsaSca\<close>, the encoded tag \<open>VecAddFvsr\<close>, and the encoded object with \<open>data\<close>
  \<open>[1, 2, 3, 4]\<close>, \<open>data_length\<close> 16 and \<open>iterations\<close> 10. This holds for every encoder; with
  the encoder \<open>json_dumps\<close> the three frames are the texts shown, and the third decodes to
  that object. For every vector, \<open>data_length\<close> is 4 times its length, the frames are
  appended to what was written before, and no line is read.
\<close>

theorem vec_add_frames:
  "tx (ml_dsa_vec_add_batch_fvsr dumps [1, 2, 3, 4] 10 \<lparr>rx = lines, rx_pos = p, tx = []\<rparr>)
     = [dumps (JString ''MlDsaSca''), dumps (JString ''VecAddFvsr''),
        dumps (JObject [(''data'', JArray [JInt 1, JInt 2, JInt 3, JInt 4]),
                        (''data_length'', JInt 16), (''iterations'', JInt 10)])]
   \<and> tx (ml_dsa_vec_add_batch_fvsr json_dumps [1, 2, 3, 4] 10 \<lparr>rx = lines, rx_pos = p, tx = []\<rparr>)
     = [''\"MlDsaSca\"'', ''\"VecAddFvsr\"'',
        ''{\"data\": [1, 2, 3, 4], \"data_length\": 16, \"iterations\": 10}'']
   \<and> json_loads ''{\"data\": [1, 2, 3, 4], \"data_length\": 16, \"iterations\": 10}''
     = Some (JObject [(''data'', JArray [JInt 1, JInt 2, JInt 3, JInt 4]),
                      (''data_length'', JInt 16), (''iterations'', JInt 10)])
   \<and> tx (ml_dsa_vec_add_batch_fvsr dumps data iters t)
     = tx t @ [dumps (JString ''MlDsaSca''), dumps (JString ''VecAddFvsr''),
               dumps (JObject [(''data'', JArray (map JInt data)),
                               (''data_length'', JInt (4 * int (length data))),
                               (''iterations'', JInt iters)])]
   \<and> rx_pos (ml_dsa_vec_add_batch_fvsr dumps data iters t) = rx_pos t"
proof (intro conjI)
  show "tx (ml_dsa_vec_add_batch_fvsr dumps [1, 2, 3, 4] 10 \<lparr>rx = lines, rx_pos = p, tx = []\<rparr>)
     = [dumps (JString ''MlDsaSca''), dumps (JString ''VecAddFvsr''),
        dumps (JObject [(''data'', JArray [JInt 1, JInt 2, JInt 3, JInt 4]),
                        (''data_length'', JInt 16), (''iterations'', JInt 10)])]"
    by (simp add: vec_add_tx)
  show "tx (ml_dsa_vec_add_batch_fvsr json_dumps [1, 2, 3, 4] 10 \<lparr>rx = lines, rx_pos = p, tx = []\<rparr>)
     = [''\"MlDsaSca\"'', ''\"VecAddFvsr\"'',
        ''{\"data\": [1, 2, 3, 4], \"data_length\": 16, \"iterations\": 10}'']"
    unfolding vec_add_tx by (simp only: dumps_mode dumps_op dumps_payload[symmetric]) simp
  show "json_loads ''{\"data\": [1, 2, 3, 4], \"data_length\": 16, \"iterations\": 10}''
     = Some (JObject [(''data'', JArray [JInt 1, JInt 2, JInt 3, JInt 4]),
                      (''data_length'', JInt 16), (''iterations'', JInt 10)])"
    by (rule loads_payload)
  show "tx (ml_dsa_vec_add_batch_fvsr dumps data iters t)
     = tx t @ [dumps (JString ''MlDsaSca''), dumps (JString ''VecAddFvsr''),
               dumps (JObject [(''data'', JArray (map JInt data)),
                               (''data_length'', JInt (4 * int (length data))),
                               (''iterations'', JInt iters)])]"
    by (rule vec_add_tx)
  show "rx_pos (ml_dsa_vec_add_batch_fvsr dumps data iters t) = rx_pos t"
    by (simp add: ml_dsa_vec_add_batch_fvsr_def ujson_ml_dsa_sca_cmd_def target_write_def Let_def)
qed

section \<open>The instrument: properties\<close>






lemma wait_target_done_never:
  assumes "\<forall>k. \<not> is_done k"
  shows "wait_target_done is_done i out = None"
proof (rule ccontr)
  assume "wait_target_done is_done i out \<noteq> None"
  then obtain y where some: "wait_target_done is_done i out = Some y" by auto
  have "\<not> (\<forall>k. \<not> is_done k)"
    by (rule wait_target_done.raw_induct
          [where P = "\<lambda>is_done i out y. \<not> (\<forall>k. \<not> is_done k)", OF _ some])
       (auto split: if_splits)
  then show False using assms by blast
qed

lemma wait_target_done_first:
  assumes "is_done k" and "\<forall>j<k. \<not> is_done j" and "i + d = k"
  shows "wait_target_done is_done i out
           = Some (k, out @ replicate (k - max i 100) ''Warning: Target did not finish operation'')"
  using assms(3)
proof (induction d arbitrary: i out)
  case 0
  then have "i = k" by simp
  then show ?case using assms(1) by (subst wait_target_done.simps) simp
next
  case (Suc d)
  let ?W = "''Warning: Target did not finish operation''"
  let ?out = "if 100 < i + 1 then out @ [?W] else out"
  have lt: "i < k" using Suc.prems by simp
  then have nd: "\<not> is_done i" using assms(2) by blast
  have step: "wait_target_done is_done i out = wait_target_done is_done (i + 1) ?out"
    using nd by (subst wait_target_done.simps) simp
  have ih: "wait_target_done is_done (i + 1) ?out
              = Some (k, ?out @ replicate (k - max (i + 1) 100) ?W)"
    using Suc.IH[of "i + 1" ?out] Suc.prems by simp
  have "?out @ replicate (k - max (i + 1) 100) ?W = out @ replicate (k - max i 100) ?W"
  proof (cases "100 < i + 1")
    case True
    then have "k - max i 100 = Suc (k - max (i + 1) 100)" using lt unfolding max_def by auto
    then show ?thesis using True by simp
  next
    case False
    then show ?thesis by (simp add: max_def)
  qed
  then show ?case using step ih by simp
qed



text \<open>
  Claim C2, what the code does. In single mode, \<open>capture_and_transfer_waves\<close> calls the
  target-done probe until it gives done, with no bound: when the probe never gives done
  the call does not return, and when the \<open>k\<close>-th call is the first to give done the call
  returns one trace after \<open>k + 1\<close> probe calls, having printed the warning \<open>k - 100\<close> times.
\<close>

theorem target_done_wait_unbounded:
  assumes "num_segments self = 1"
  shows "((\<forall>k. \<not> is_done k)
            \<longrightarrow> capture_and_transfer_waves self ret last_trace segmented is_done = None)
       \<and> (\<forall>k. is_done k \<and> (\<forall>j<k. \<not> is_done j)
            \<longrightarrow> capture_and_transfer_waves self ret last_trace segmented is_done
                  = Some ([last_trace], k + 1,
                      replicate (k - 100) ''Warning: Target did not finish operation''
                      @ (if ret then [''Warning: Timeout happened during capture''] else [])))"
proof (intro conjI impI allI)
  assume "\<forall>k. \<not> is_done k"
  then show "capture_and_transfer_waves self ret last_trace segmented is_done = None"
    using assms by (simp add: capture_and_transfer_waves_def wait_target_done_never)
next
  fix k
  assume h: "is_done k \<and> (\<forall>j<k. \<not> is_done j)"
  have "wait_target_done is_done 0 []
          = Some (k, [] @ replicate (k - max 0 100) ''Warning: Target did not finish operation'')"
    using wait_target_done_first[of is_done k 0 k "[]"] h by simp
  then show "capture_and_transfer_waves self ret last_trace segmented is_done
                  = Some ([last_trace], k + 1,
                      replicate (k - 100) ''Warning: Target did not finish operation''
                      @ (if ret then [''Warning: Timeout happened during capture''] else []))"
    using assms by (simp add: capture_and_transfer_waves_def)
qed

theorem target_done_wait_unbounded_witness:
  "num_segments \<lparr> scope = None, scope_gain = 0, clkgen_freq = 48000000, adc_mul = 4,
       sampling_rate = 192000000, target_freq = 96000000, offset_samples = 0,
       num_samples = 201, num_segments = 1 \<rparr> = 1
   \<and> \<not> (\<exists>k. (\<lambda>k::nat. False) k)
   \<and> capture_and_transfer_waves
        \<lparr> scope = None, scope_gain = 0, clkgen_freq = 48000000, adc_mul = 4,
          sampling_rate = 192000000, target_freq = 96000000, offset_samples = 0,
          num_samples = 201, num_segments = 1 \<rparr> False [] [] (\<lambda>k. False) = None
   \<and> (\<lambda>k::nat. 150 \<le> k) 150 \<and> \<not> (\<exists>j. j < 150 \<and> (\<lambda>k::nat. 150 \<le> k) j)
   \<and> capture_and_transfer_waves
        \<lparr> scope = None, scope_gain = 0, clkgen_freq = 48000000, adc_mul = 4,
          sampling_rate = 192000000, target_freq = 96000000, offset_samples = 0,
          num_samples = 201, num_segments = 1 \<rparr> False [] [] (\<lambda>k. 150 \<le> k)
       = Some ([[]], 151, replicate 50 ''Warning: Target did not finish operation'')"
proof -
  let ?h = "\<lparr> scope = None, scope_gain = 0, clkgen_freq = 48000000, adc_mul = 4,
       sampling_rate = 192000000, target_freq = 96000000, offset_samples = 0,
       num_samples = 201, num_segments = 1 \<rparr>"
  have one: "num_segments ?h = 1" by simp
  have never: "\<forall>k. \<not> (\<lambda>k::nat. False) k" by simp
  have late: "(\<lambda>k::nat. 150 \<le> k) 150 \<and> (\<forall>j<150. \<not> (\<lambda>k::nat. 150 \<le> k) j)" by simp
  have a: "capture_and_transfer_waves ?h False [] [] (\<lambda>k. False) = None"
    using target_done_wait_unbounded[OF one, where is_done = "\<lambda>k. False" and ret = False
        and last_trace = "[]" and segmented = "[]"] never
    by blast
  have "capture_and_transfer_waves ?h False [] [] (\<lambda>k. 150 \<le> k)
       = Some ([[]], 150 + 1, replicate (150 - 100) ''Warning: Target did not finish operation''
                 @ (if False then [''Warning: Timeout happened during capture''] else []))"
    using target_done_wait_unbounded[OF one, where is_done = "\<lambda>k. 150 \<le> k" and ret = False
        and last_trace = "[]" and segmented = "[]"] late
    by blast
  then have b: "capture_and_transfer_waves ?h False [] [] (\<lambda>k. 150 \<le> k)
       = Some ([[]], 151, replicate 50 ''Warning: Target did not finish operation'')"
    by simp
  have never': "\<not> (\<exists>k. (\<lambda>k::nat. False) k)" by simp
  have at: "(\<lambda>k::nat. 150 \<le> k) 150" by simp
  have before': "\<not> (\<exists>j. j < 150 \<and> (\<lambda>k::nat. 150 \<le> k) j)" by simp
  show ?thesis
    by (intro conjI) (rule one never' a at before' b)+
qed

end
